theory Spec2Isabelle
  imports Main "HOL-Library.AList" "HOL-Library.Multiset"
begin

section \<open>Data model\<close>

text \<open>
  The diagnostics aggregator of \<^verbatim>\<open>src/providers/diagnostics/diagnosticsProvider.ts\<close>.
  A JavaScript \<^verbatim>\<open>Map\<close> iterates in insertion order; \<^verbatim>\<open>set\<close> on a present key keeps the
  key's position and \<^verbatim>\<open>set\<close> on a new key appends. That is an association list under
  \<^const>\<open>AList.update\<close>, \<^const>\<open>AList.delete\<close> and \<^const>\<open>map_of\<close>.
\<close>

datatype DiagnosticSeverity = Error | Warning | Information | Hint

datatype DiagnosticTag = Unnecessary | Deprecated

record Diagnostic =
  code :: string
  message :: string
  severity :: DiagnosticSeverity
  range' :: "(nat \<times> nat) \<times> (nat \<times> nat)"
  tags :: "DiagnosticTag list"
  source :: string

datatype DiagnosticKind = ElmMake | ElmAnalyse | TypeInference | ElmLS

datatype ElmAnalyseTrigger = change | save | never

record IClientSettings =
  elmAnalyseTrigger :: ElmAnalyseTrigger
  disableElmLSDiagnostics :: bool

subsection \<open>FileDiagnostics\<close>

text \<open>
  Modelled from the spec: the class \<^verbatim>\<open>FileDiagnostics\<close> of \<^verbatim>\<open>fileDiagnostics.ts\<close> is imported
  by the provider and is not among the sources. The spec (sections 3 and 4.3) gives it one
  ordered list per diagnostic kind; \<^verbatim>\<open>update(kind, list)\<close> replaces the slot and returns
  whether the flattened multiset of diagnostics changed, two diagnostics being equal iff
  code, message, severity, range and tags (as a set) are equal; \<^verbatim>\<open>get()\<close> is the union over
  the kinds and \<^verbatim>\<open>getForKind(kind)\<close> the list of one kind.
\<close>

record FileDiagnostics =
  fd_uri :: string
  slots :: "DiagnosticKind \<Rightarrow> Diagnostic list"

definition newFileDiagnostics :: "string \<Rightarrow> FileDiagnostics" where
  "newFileDiagnostics uri = \<lparr>fd_uri = uri, slots = (\<lambda>_. [])\<rparr>"

definition getForKind :: "FileDiagnostics \<Rightarrow> DiagnosticKind \<Rightarrow> Diagnostic list" where
  "getForKind fd kind = slots fd kind"

definition get :: "FileDiagnostics \<Rightarrow> Diagnostic list" where
  "get fd = slots fd ElmMake @ slots fd ElmAnalyse @ slots fd TypeInference @ slots fd ElmLS"

definition diagnosticKey ::
  "Diagnostic \<Rightarrow> string \<times> string \<times> DiagnosticSeverity \<times> ((nat \<times> nat) \<times> (nat \<times> nat)) \<times> DiagnosticTag set" where
  "diagnosticKey d = (code d, message d, severity d, range' d, set (tags d))"

definition diagnosticsEquals :: "Diagnostic \<Rightarrow> Diagnostic \<Rightarrow> bool" where
  "diagnosticsEquals a b \<longleftrightarrow> diagnosticKey a = diagnosticKey b"

text \<open>
  Modelled from the spec: \<^verbatim>\<open>FileDiagnostics.update\<close> (missing with its class), section 3:
  it replaces the slot and returns whether the flattened multiset of diagnostics, under
  the equality of diagnostics, differs from the old one.
\<close>

definition update :: "FileDiagnostics \<Rightarrow> DiagnosticKind \<Rightarrow> Diagnostic list \<Rightarrow> bool \<times> FileDiagnostics" where
  "update fd kind diagnostics =
     (let fd' = fd\<lparr>slots := (slots fd)(kind := diagnostics)\<rparr>
      in (mset (map diagnosticKey (get fd')) \<noteq> mset (map diagnosticKey (get fd)), fd'))"

subsection \<open>The provider's state\<close>

text \<open>
  The fields of \<^verbatim>\<open>DiagnosticsProvider\<close> that the handlers read and write, and the effects
  they have on their collaborators, each as a log in call order:
  \<^item> \<open>currentDiagnostics\<close>: the \<^verbatim>\<open>Map<string, FileDiagnostics>\<close>;
  \<^item> \<open>clientSettings\<close>: replaced on every configuration change;
  \<^item> \<open>analyseTrigger\<close>: the constant \<^verbatim>\<open>elmAnalyseTrigger\<close> the constructor captures;
  \<^item> \<open>elmAnalyseDiagnostics\<close>: whether the field of that name is non-null;
  \<^item> \<open>now\<close>, \<open>nextWrapper\<close>, \<open>timers\<close>: the clock in milliseconds, the number of
    debounce wrappers created so far, and the pending timeouts as
    (wrapper, due time, argument);
  \<^item> \<open>sent\<close>: the calls of \<^verbatim>\<open>connection.sendDiagnostics\<close>;
  \<^item> \<open>console\<close>: the calls of \<^verbatim>\<open>connection.console.info\<close>;
  \<^item> \<open>analyseRequests\<close>: the calls of \<^verbatim>\<open>elmAnalyseDiagnostics.updateFile\<close>.
\<close>

record state =
  currentDiagnostics :: "(string \<times> FileDiagnostics) list"
  clientSettings :: IClientSettings
  analyseTrigger :: ElmAnalyseTrigger
  elmAnalyseDiagnostics :: bool
  now :: nat
  nextWrapper :: nat
  timers :: "(nat \<times> nat \<times> string) list"
  sent :: "(string \<times> Diagnostic list) list"
  console :: "string list"
  analyseRequests :: "(string \<times> string) list"

text \<open>The list a file holds under a kind; a file without a record holds none.\<close>

definition slotOf :: "state \<Rightarrow> string \<Rightarrow> DiagnosticKind \<Rightarrow> Diagnostic list" where
  "slotOf s uri kind =
     (case map_of (currentDiagnostics s) uri of
        None \<Rightarrow> []
      | Some fileDiagnostics \<Rightarrow> getForKind fileDiagnostics kind)"

section \<open>Publishing\<close>

text \<open>
  The closure \<^verbatim>\<open>sendDiagnostics\<close> of lines 227 to 233: it looks the record up when it runs.
\<close>

definition sendDiagnostics :: "string \<Rightarrow> state \<Rightarrow> state" where
  "sendDiagnostics uri s =
     s\<lparr>sent := sent s @
         [(uri, case map_of (currentDiagnostics s) uri of
                  Some fileDiagnostics \<Rightarrow> get fileDiagnostics
                | None \<Rightarrow> [])]\<rparr>"

text \<open>
  \<^verbatim>\<open>debounce(f, 50)\<close> of the library ts-debounce returns a wrapper that owns one timeout:
  a call of the wrapper clears the wrapper's pending timeout, if any, and sets a new one
  that runs \<^verbatim>\<open>f\<close> with the call's arguments after the wait. \<open>callDebounced w\<close> is a call
  of wrapper \<open>w\<close>.
\<close>

definition callDebounced :: "nat \<Rightarrow> string \<Rightarrow> state \<Rightarrow> state" where
  "callDebounced w uri s =
     s\<lparr>timers := filter (\<lambda>(w', due, arg). w' \<noteq> w) (timers s) @ [(w, now s + 50, uri)]\<rparr>"

text \<open>
  Lines 235 to 237: every request builds a wrapper of its own (\<open>nextWrapper\<close> numbers
  them) and calls it once.
\<close>

definition sendDiagnosticsDebounced :: "string \<Rightarrow> state \<Rightarrow> state" where
  "sendDiagnosticsDebounced uri s =
     (let w = nextWrapper s
      in callDebounced w uri (s\<lparr>nextWrapper := w + 1\<rparr>))"

text \<open>
  Time passing: the clock moves to \<open>t\<close> and the timeouts due by then run, earliest first
  (timeouts of equal due time in the order they were set).
\<close>

definition advanceTo :: "nat \<Rightarrow> state \<Rightarrow> state" where
  "advanceTo t s =
     (let due = sort_key (\<lambda>(w, d, arg). d) (filter (\<lambda>(w, d, arg). d \<le> t) (timers s));
          rest = filter (\<lambda>(w, d, arg). \<not> d \<le> t) (timers s)
      in foldl (\<lambda>s' (w, d, arg). sendDiagnostics arg s') (s\<lparr>now := max t (now s), timers := rest\<rparr>) due)"

section \<open>The aggregator\<close>

definition updateDiagnostics :: "string \<Rightarrow> DiagnosticKind \<Rightarrow> Diagnostic list \<Rightarrow> state \<Rightarrow> state" where
  "updateDiagnostics uri kind diagnostics s =
     (case map_of (currentDiagnostics s) uri of
        Some fileDiagnostics \<Rightarrow>
          (let (didUpdate, fileDiagnostics') = update fileDiagnostics kind diagnostics;
               s' = s\<lparr>currentDiagnostics := AList.update uri fileDiagnostics' (currentDiagnostics s)\<rparr>
           in if didUpdate then sendDiagnosticsDebounced uri s' else s')
      | None \<Rightarrow>
          if length diagnostics > 0 then
            (let fileDiagnostics = snd (update (newFileDiagnostics uri) kind diagnostics);
                 s' = s\<lparr>currentDiagnostics := AList.update uri fileDiagnostics (currentDiagnostics s)\<rparr>
             in sendDiagnosticsDebounced uri s')
          else s)"

definition deleteDiagnostics :: "string \<Rightarrow> state \<Rightarrow> state" where
  "deleteDiagnostics uri s =
     (s\<lparr>currentDiagnostics := AList.delete uri (currentDiagnostics s)\<rparr>)
      \<lparr>sent := sent s @ [(uri, [])]\<rparr>"

definition resetDiagnostics ::
  "(string \<times> Diagnostic list) list \<Rightarrow> DiagnosticKind \<Rightarrow> state \<Rightarrow> (string \<times> Diagnostic list) list" where
  "resetDiagnostics diagnosticList diagnosticKind s =
     foldl (\<lambda>dl (diagnosticsUri, fileDiagnostics).
              if map_of dl diagnosticsUri = None \<and> length (getForKind fileDiagnostics diagnosticKind) > 0
              then AList.update diagnosticsUri [] dl
              else dl)
           diagnosticList (currentDiagnostics s)"

section \<open>Collaborators and handlers\<close>

text \<open>
  The collaborators the constructor resolves are parameters of the model: the forest of a
  workspace (the values of \<^verbatim>\<open>getForest().treeMap\<close> in iteration order), the three
  \<^verbatim>\<open>createDiagnostics\<close> producers, the workspace matcher and \<^verbatim>\<open>URI.parse\<close> followed by
  \<^verbatim>\<open>toString\<close>. The syntax tree \<open>'t\<close> and the workspace \<open>'w\<close> stay abstract.
\<close>

record 't ITreeContainer =
  tc_uri :: string
  writeable :: bool
  tree :: 't

datatype error = NoWorkspaceContainsError string | OtherError string

record TextDocument =
  doc_uri :: string
  getText :: string

record ('t, 'w) collaborators =
  workspaces :: "'w list"
  treeMap :: "'w \<Rightarrow> 't ITreeContainer list"
  elmLsCreateDiagnostics :: "'t \<Rightarrow> string \<Rightarrow> 'w \<Rightarrow> Diagnostic list"
  typeInferenceCreateDiagnostics :: "'t ITreeContainer \<Rightarrow> 'w \<Rightarrow> Diagnostic list"
  elmMakeCreateDiagnostics :: "string \<Rightarrow> (string \<times> Diagnostic list) list"
  getElmWorkspaceFor :: "string \<Rightarrow> error + 'w"
  parseUri :: "string \<Rightarrow> string"

text \<open>Lines 105 to 129, the handler of \<^verbatim>\<open>onDidChangeConfiguration\<close>.\<close>

definition onDidChangeConfiguration ::
  "('t, 'w) collaborators \<Rightarrow> IClientSettings \<Rightarrow> state \<Rightarrow> state" where
  "onDidChangeConfiguration env settings s =
     (let s1 = s\<lparr>clientSettings := settings\<rparr>
      in if disableElmLSDiagnostics (clientSettings s1) then
           foldl (\<lambda>s' u. updateDiagnostics u ElmLS [] s') s1 (map fst (currentDiagnostics s1))
         else
           foldl (\<lambda>s' workspace.
                    foldl (\<lambda>s'' treeContainer.
                             if writeable treeContainer then
                               updateDiagnostics (tc_uri treeContainer) ElmLS
                                 (elmLsCreateDiagnostics env (tree treeContainer) (tc_uri treeContainer) workspace) s''
                             else s'')
                          s' (treeMap env workspace))
                 s1 (workspaces env))"

text \<open>
  Lines 159 to 194, the handler of \<^verbatim>\<open>onTreeChange\<close>. An exception that leaves the handler
  is the result \<open>Inl\<close>. The constructor registers the handler inside its loop over the
  workspaces, once for each; the model is one run of it.
\<close>

definition onTreeChange ::
  "('t, 'w) collaborators \<Rightarrow> 't ITreeContainer \<Rightarrow> state \<Rightarrow> error + state" where
  "onTreeChange env treeContainer s =
     (case getElmWorkspaceFor env (tc_uri treeContainer) of
        Inl (NoWorkspaceContainsError msg) \<Rightarrow> Inr (s\<lparr>console := console s @ [msg]\<rparr>)
      | Inl (OtherError msg) \<Rightarrow> Inl (OtherError msg)
      | Inr workspace \<Rightarrow>
          (let s1 = updateDiagnostics (tc_uri treeContainer) TypeInference
                      (typeInferenceCreateDiagnostics env treeContainer workspace) s
           in Inr (if \<not> disableElmLSDiagnostics (clientSettings s1) then
                     updateDiagnostics (tc_uri treeContainer) ElmLS
                       (elmLsCreateDiagnostics env (tree treeContainer) (tc_uri treeContainer) workspace) s1
                   else s1)))"

text \<open>Lines 249 to 294. The awaited calls are taken in program order.\<close>

definition requestedInfo :: "bool \<Rightarrow> string" where
  "requestedInfo isSaveOrOpen =
     ''Diagnostics were requested due to a file '' @ (if isSaveOrOpen then ''open or save'' else ''change'')"

definition getDiagnostics ::
  "('t, 'w) collaborators \<Rightarrow> TextDocument \<Rightarrow> bool \<Rightarrow> ElmAnalyseTrigger \<Rightarrow> state \<Rightarrow> state" where
  "getDiagnostics env document isSaveOrOpen trigger s =
     (let s0 = s\<lparr>console := console s @ [requestedInfo isSaveOrOpen]\<rparr>;
          u = parseUri env (doc_uri document);
          text = getText document;
          s1 = (if isSaveOrOpen then
                  (let elmMakeDiagnostics = resetDiagnostics (elmMakeCreateDiagnostics env u) ElmMake s0
                   in foldl (\<lambda>s' (diagnosticsUri, diagnostics).
                               updateDiagnostics diagnosticsUri ElmMake diagnostics s')
                        s0 elmMakeDiagnostics)
                else s0);
          elmMakeDiagnosticsForCurrentFile =
            (case map_of (currentDiagnostics s1) u of
               Some fileDiagnostics \<Rightarrow> getForKind fileDiagnostics ElmMake
             | None \<Rightarrow> [])
      in if elmAnalyseDiagnostics s1 \<and> trigger \<noteq> never \<and> length elmMakeDiagnosticsForCurrentFile = 0
         then s1\<lparr>analyseRequests := analyseRequests s1 @ [(u, text)]\<rparr>
         else s1)"

text \<open>
  Lines 75 to 103: the listeners of the document events. \<^verbatim>\<open>open\<close> and \<^verbatim>\<open>save\<close> always have
  one; \<^verbatim>\<open>change\<close> has one only when the trigger captured at construction is \<^verbatim>\<open>change\<close>.
\<close>

datatype event = Open TextDocument | Save TextDocument | Change TextDocument

fun document_of :: "event \<Rightarrow> TextDocument" where
  "document_of (Open d) = d"
| "document_of (Save d) = d"
| "document_of (Change d) = d"

fun onEvent :: "('t, 'w) collaborators \<Rightarrow> event \<Rightarrow> state \<Rightarrow> state" where
  "onEvent env (Open d) s = getDiagnostics env d True (analyseTrigger s) s"
| "onEvent env (Save d) s = getDiagnostics env d True (analyseTrigger s) s"
| "onEvent env (Change d) s =
     (if analyseTrigger s = change then getDiagnostics env d False (analyseTrigger s) s else s)"

text \<open>Lines 198 to 206, the listener of the external linter's \<^verbatim>\<open>new-diagnostics\<close>.\<close>

definition newElmAnalyseDiagnostics :: "(string \<times> Diagnostic list) list \<Rightarrow> state \<Rightarrow> state" where
  "newElmAnalyseDiagnostics diagnostics s =
     (let diagnostics' = resetDiagnostics diagnostics ElmAnalyse s
      in foldl (\<lambda>s' (u, ds). updateDiagnostics u ElmAnalyse ds s') s diagnostics')"

text \<open>
  The requests of lines 113 to 127 in the order the loops issue them: one per writeable
  tree container of every workspace, with the diagnostics computed for it.
\<close>

definition lintJobs :: "('t, 'w) collaborators \<Rightarrow> (string \<times> Diagnostic list) list" where
  "lintJobs env =
     concat (map (\<lambda>workspace.
                    map (\<lambda>treeContainer.
                           (tc_uri treeContainer,
                            elmLsCreateDiagnostics env (tree treeContainer) (tc_uri treeContainer) workspace))
                        (filter writeable (treeMap env workspace)))
                 (workspaces env))"

section \<open>The rule engine\<close>

text \<open>
  The rule evaluators (\<^verbatim>\<open>elmLsDiagnostics.ts\<close>) are not among the sources; the repository has
  their tests, \<^verbatim>\<open>test/diagnosticTests/elmDiagnostics.test.ts\<close>. A module is what the rules
  of the spec's section 4 read of it: the exposing list and, for every top-level
  declaration, its name, its kind, the value constructors it declares and the names that
  occur inside its defining span, each as an identifier of an expression, a type reference
  or the constructor of a pattern. The constructor of a pattern that is an argument of a
  function declaration, as \<^verbatim>\<open>Bar\<close> in \<^verbatim>\<open>foo (Bar i) = i\<close>, is told apart from the
  constructor of any other pattern, as \<^verbatim>\<open>Bar\<close> in a branch \<^verbatim>\<open>Bar i -> i\<close> of a case
  expression: the repository's tests of the value constructors treat the two differently.
\<close>

datatype exposedItem = ExposedName string | ExposedTypeAll string

datatype exposing = ExposingAll | ExposingList "exposedItem list"

datatype occurrence =
    Identifier string
  | TypeRef string
  | PatternConstructor string
  | ArgumentPatternConstructor string

datatype declKind = ValueDecl | TypeAliasDecl | CustomTypeDecl | PortDecl

record moduleDeclaration =
  decl_name :: string
  kind :: declKind
  constructors :: "string list"
  occurrences :: "occurrence list"

record elmModule =
  exposingList :: exposing
  declarations :: "moduleDeclaration list"

fun occ_name :: "occurrence \<Rightarrow> string" where
  "occ_name (Identifier n) = n"
| "occ_name (TypeRef n) = n"
| "occ_name (PatternConstructor n) = n"
| "occ_name (ArgumentPatternConstructor n) = n"

fun item_name :: "exposedItem \<Rightarrow> string" where
  "item_name (ExposedName n) = n"
| "item_name (ExposedTypeAll n) = n"

fun isTypeRef :: "occurrence \<Rightarrow> bool" where
  "isTypeRef (TypeRef n) = True"
| "isTypeRef _ = False"

subsection \<open>Usage/Reachability Resolver\<close>

text \<open>
  Modelled from the spec: the resolver is part of the missing rule engine. Section 4.1:
  an edge runs from declaration D to declaration E whenever E's name occurs inside D's
  defining span, self-references excluded; the roots are the names of the exposing list,
  or every top-level declaration if the module exposes everything, and for a port its
  signature's type names; the used declarations are those reachable from the roots. A
  name that no declaration of the module carries is not a local usage and is ignored
  (section 7).
\<close>

definition declared :: "elmModule \<Rightarrow> string list" where
  "declared m = map decl_name (declarations m)"

definition exposed :: "exposing \<Rightarrow> string \<Rightarrow> bool" where
  "exposed e n = (case e of ExposingAll \<Rightarrow> True | ExposingList items \<Rightarrow> n \<in> set (map item_name items))"

definition references :: "elmModule \<Rightarrow> string \<Rightarrow> string list" where
  "references m d =
     concat (map (\<lambda>decl. filter (\<lambda>n. n \<noteq> d) (map occ_name (occurrences decl)))
                 (filter (\<lambda>decl. decl_name decl = d) (declarations m)))"

definition portRoots :: "elmModule \<Rightarrow> string list" where
  "portRoots m =
     concat (map (\<lambda>decl. filter (\<lambda>n. n \<noteq> decl_name decl)
                            (map occ_name (filter isTypeRef (occurrences decl))))
                 (filter (\<lambda>decl. kind decl = PortDecl) (declarations m)))"

definition roots :: "elmModule \<Rightarrow> string list" where
  "roots m = filter (exposed (exposingList m)) (declared m) @ portRoots m"

text \<open>
  Modelled from the spec: the reachability run of the missing resolver (section 4.1,
  depth or breadth first, the result a set): a work list and the names visited so far.
\<close>

function reachable :: "elmModule \<Rightarrow> string list \<Rightarrow> string list \<Rightarrow> string list" where
  "reachable m [] visited = visited"
| "reachable m (x # todo) visited =
     (if x \<in> set visited \<or> x \<notin> set (declared m) then reachable m todo visited
      else reachable m (references m x @ todo) (x # visited))"
  by pat_completeness auto
termination
proof (relation "measures [\<lambda>(m, todo, visited). card (set (declared m) - set visited),
                           \<lambda>(m, todo, visited). length todo]")
  show "wf (measures [\<lambda>(m, todo, visited). card (set (declared m) - set visited),
                      \<lambda>(m, todo, visited). length todo])"
    by simp
next
  fix m :: elmModule and x :: string and todo visited :: "string list"
  assume "x \<in> set visited \<or> x \<notin> set (declared m)"
  then show "((m, todo, visited), (m, x # todo, visited))
        \<in> measures [\<lambda>(m, todo, visited). card (set (declared m) - set visited),
                     \<lambda>(m, todo, visited). length todo]"
    by simp
next
  fix m :: elmModule and x :: string and todo visited :: "string list"
  assume "\<not> (x \<in> set visited \<or> x \<notin> set (declared m))"
  then have "set (declared m) - set (x # visited) \<subset> set (declared m) - set visited"
    by auto
  then have "card (set (declared m) - set (x # visited)) < card (set (declared m) - set visited)"
    by (intro psubset_card_mono) simp_all
  then show "((m, references m x @ todo, x # visited), (m, x # todo, visited))
        \<in> measures [\<lambda>(m, todo, visited). card (set (declared m) - set visited),
                     \<lambda>(m, todo, visited). length todo]"
    by simp
qed

text \<open>
  Modelled from the spec: \<^verbatim>\<open>computeUsed\<close> of the missing resolver (section 4.1), the
  declarations reachable from the roots.
\<close>

definition computeUsed :: "elmModule \<Rightarrow> string list" where
  "computeUsed m = reachable m (roots m) []"

text \<open>
  Modelled from the spec: the rule \<^verbatim>\<open>unused_top_level\<close> of the missing rule engine, by the
  row of the table in section 4.2: one diagnostic per top-level declaration that is
  unreachable per section 4.1. The model returns the names reported, in source order.
\<close>

definition unused_top_level :: "elmModule \<Rightarrow> string list" where
  "unused_top_level m = filter (\<lambda>n. n \<notin> set (computeUsed m)) (declared m)"

subsection \<open>Value constructors\<close>

text \<open>
  Modelled from the spec: the words of the row \<^verbatim>\<open>unused_value_constructor\<close> of the
  table in section 4.2 (its evaluator is missing with the rule engine), each as a
  predicate on the module: the type is exposed with \<^verbatim>\<open>(..)\<close> (a module that exposes
  everything exposes every type so), the constructor is referenced by name, the constructor
  is used via pattern match (in a pattern of any kind).
\<close>

definition exposedWithAll :: "exposing \<Rightarrow> string \<Rightarrow> bool" where
  "exposedWithAll e t = (case e of ExposingAll \<Rightarrow> True | ExposingList items \<Rightarrow> ExposedTypeAll t \<in> set items)"

definition allOccurrences :: "elmModule \<Rightarrow> occurrence list" where
  "allOccurrences m = concat (map occurrences (declarations m))"

definition referencedByName :: "elmModule \<Rightarrow> string \<Rightarrow> bool" where
  "referencedByName m c \<longleftrightarrow> Identifier c \<in> set (allOccurrences m)"

definition usedViaPatternMatch :: "elmModule \<Rightarrow> string \<Rightarrow> bool" where
  "usedViaPatternMatch m c \<longleftrightarrow>
     PatternConstructor c \<in> set (allOccurrences m) \<or> ArgumentPatternConstructor c \<in> set (allOccurrences m)"

text \<open>
  Modelled from the spec: which occurrences the evaluator of \<^verbatim>\<open>unused_value_constructor\<close>
  (missing with the rule engine) takes as a use of a value constructor. By the row of the
  table in section 4.2 a constructor is used when it is referenced by name or used via
  pattern match. The repository's test \<^verbatim>\<open>unused and not exposed\<close> (lines 1463 to 1481)
  expects a report for \<^verbatim>\<open>Bar\<close> in \<^verbatim>\<open>foo (Bar i) = i\<close>, so the pattern of an argument of a
  function declaration is no use; nothing in the repository says so of any other pattern,
  and those stay uses as the row has them. A type reference names a type, not a
  constructor.
\<close>

fun isUse :: "occurrence \<Rightarrow> bool" where
  "isUse (Identifier n) = True"
| "isUse (PatternConstructor n) = True"
| "isUse (ArgumentPatternConstructor n) = False"
| "isUse (TypeRef n) = False"

definition usedNames :: "elmModule \<Rightarrow> string list" where
  "usedNames m = map occ_name (filter isUse (allOccurrences m))"

text \<open>
  Modelled from the spec: the evaluator of \<^verbatim>\<open>unused_value_constructor\<close> (missing with the
  rule engine), the row of the table in section 4.2: one diagnostic per value constructor
  that is not used and whose owning type is not exposed with \<^verbatim>\<open>(..)\<close>. The model returns
  the names reported, in source order.
\<close>

definition unused_value_constructor :: "elmModule \<Rightarrow> string list" where
  "unused_value_constructor m =
     concat (map (\<lambda>decl. filter (\<lambda>c. c \<notin> set (usedNames m)) (constructors decl))
                 (filter (\<lambda>decl. kind decl = CustomTypeDecl \<and> \<not> exposedWithAll (exposingList m) (decl_name decl))
                         (declarations m)))"

subsection \<open>The modules of the tests\<close>

text \<open>
  Test \<^verbatim>\<open>only used in self\<close> (lines 199 to 219):
  \<^verbatim>\<open>module Bar exposing (foo, Some(..))\<close>, \<^verbatim>\<open>type Some = Thing\<close>, \<^verbatim>\<open>foo = 1\<close>,
  \<^verbatim>\<open>bar = bar + foo\<close>; the test expects \<^verbatim>\<open>unused_top_level\<close> for \<^verbatim>\<open>bar\<close> alone.
\<close>

definition test_only_used_in_self :: elmModule where
  "test_only_used_in_self =
     \<lparr>exposingList = ExposingList [ExposedName ''foo'', ExposedTypeAll ''Some''],
      declarations =
        [\<lparr>decl_name = ''Some'', kind = CustomTypeDecl, constructors = [''Thing''], occurrences = []\<rparr>,
         \<lparr>decl_name = ''foo'', kind = ValueDecl, constructors = [], occurrences = []\<rparr>,
         \<lparr>decl_name = ''bar'', kind = ValueDecl, constructors = [],
          occurrences = [Identifier ''bar'', Identifier ''foo'']\<rparr>]\<rparr>"

text \<open>
  The example of the spec's section 8: \<^verbatim>\<open>module Bar exposing (foo)\<close>, \<^verbatim>\<open>foo = some\<close>,
  \<^verbatim>\<open>baz = 2\<close>, \<^verbatim>\<open>some = 1\<close>; \<^verbatim>\<open>baz\<close> is reported, \<^verbatim>\<open>some\<close> and \<^verbatim>\<open>foo\<close> are not.
\<close>

definition example_used_by_exposed :: elmModule where
  "example_used_by_exposed =
     \<lparr>exposingList = ExposingList [ExposedName ''foo''],
      declarations =
        [\<lparr>decl_name = ''foo'', kind = ValueDecl, constructors = [], occurrences = [Identifier ''some'']\<rparr>,
         \<lparr>decl_name = ''baz'', kind = ValueDecl, constructors = [], occurrences = []\<rparr>,
         \<lparr>decl_name = ''some'', kind = ValueDecl, constructors = [], occurrences = []\<rparr>]\<rparr>"

text \<open>
  The six tests of \<^verbatim>\<open>unused value constructor\<close> (lines 1427 to 1530), each with the names
  of the constructors the test expects reported.

  \<^verbatim>\<open>unused but exposed\<close>: \<^verbatim>\<open>module Foo exposing (Foo(..))\<close>, \<^verbatim>\<open>type Foo = Bar\<close>; none.
\<close>

definition test_unused_but_exposed :: elmModule where
  "test_unused_but_exposed =
     \<lparr>exposingList = ExposingList [ExposedTypeAll ''Foo''],
      declarations =
        [\<lparr>decl_name = ''Foo'', kind = CustomTypeDecl, constructors = [''Bar''], occurrences = []\<rparr>]\<rparr>"

text \<open>
  \<^verbatim>\<open>used and not exposed\<close>: \<^verbatim>\<open>module Foo exposing (foo)\<close>, \<^verbatim>\<open>type Foo = Bar Int\<close>,
  \<^verbatim>\<open>foo = Bar 1\<close>; none.
\<close>

definition test_used_and_not_exposed :: elmModule where
  "test_used_and_not_exposed =
     \<lparr>exposingList = ExposingList [ExposedName ''foo''],
      declarations =
        [\<lparr>decl_name = ''Foo'', kind = CustomTypeDecl, constructors = [''Bar''],
          occurrences = [TypeRef ''Int'']\<rparr>,
         \<lparr>decl_name = ''foo'', kind = ValueDecl, constructors = [],
          occurrences = [Identifier ''Bar'']\<rparr>]\<rparr>"

text \<open>
  \<^verbatim>\<open>unused and not exposed\<close>: \<^verbatim>\<open>module Foo exposing (foo)\<close>, \<^verbatim>\<open>type Foo = Bar Int\<close>,
  \<^verbatim>\<open>foo (Bar i) = i\<close>; the test expects \<^verbatim>\<open>Bar\<close> reported.
\<close>

definition test_unused_and_not_exposed :: elmModule where
  "test_unused_and_not_exposed =
     \<lparr>exposingList = ExposingList [ExposedName ''foo''],
      declarations =
        [\<lparr>decl_name = ''Foo'', kind = CustomTypeDecl, constructors = [''Bar''],
          occurrences = [TypeRef ''Int'']\<rparr>,
         \<lparr>decl_name = ''foo'', kind = ValueDecl, constructors = [],
          occurrences = [ArgumentPatternConstructor ''Bar'', Identifier ''i'']\<rparr>]\<rparr>"

definition expected_unused_and_not_exposed :: "string list" where
  "expected_unused_and_not_exposed = [''Bar'']"

text \<open>
  \<^verbatim>\<open>used value constructor\<close>: \<^verbatim>\<open>module Bar exposing (foo)\<close>, \<^verbatim>\<open>type Some = Thing\<close>,
  \<^verbatim>\<open>foo = Thing\<close>; none.
\<close>

definition test_used_value_constructor :: elmModule where
  "test_used_value_constructor =
     \<lparr>exposingList = ExposingList [ExposedName ''foo''],
      declarations =
        [\<lparr>decl_name = ''Some'', kind = CustomTypeDecl, constructors = [''Thing''], occurrences = []\<rparr>,
         \<lparr>decl_name = ''foo'', kind = ValueDecl, constructors = [],
          occurrences = [Identifier ''Thing'']\<rparr>]\<rparr>"

text \<open>
  \<^verbatim>\<open>unused value constructor not exposed\<close>: \<^verbatim>\<open>module Bar exposing (foo, Some)\<close>,
  \<^verbatim>\<open>type Some = Thing | Other\<close>; the test expects \<^verbatim>\<open>Thing\<close> and \<^verbatim>\<open>Other\<close> reported.
\<close>

definition test_unused_value_constructor_not_exposed :: elmModule where
  "test_unused_value_constructor_not_exposed =
     \<lparr>exposingList = ExposingList [ExposedName ''foo'', ExposedName ''Some''],
      declarations =
        [\<lparr>decl_name = ''Some'', kind = CustomTypeDecl, constructors = [''Thing'', ''Other''],
          occurrences = []\<rparr>]\<rparr>"

text \<open>
  \<^verbatim>\<open>exposed value constructor\<close>: \<^verbatim>\<open>module Bar exposing (foo, Some(..))\<close>,
  \<^verbatim>\<open>type Some = Thing\<close>, \<^verbatim>\<open>foo = 1\<close>; none.
\<close>

definition test_exposed_value_constructor :: elmModule where
  "test_exposed_value_constructor =
     \<lparr>exposingList = ExposingList [ExposedName ''foo'', ExposedTypeAll ''Some''],
      declarations =
        [\<lparr>decl_name = ''Some'', kind = CustomTypeDecl, constructors = [''Thing''], occurrences = []\<rparr>,
         \<lparr>decl_name = ''foo'', kind = ValueDecl, constructors = [], occurrences = []\<rparr>]\<rparr>"

text \<open>
  Not a test of the repository: the module of \<^verbatim>\<open>unused and not exposed\<close> with the match
  moved from the argument into a case expression, \<^verbatim>\<open>foo x = case x of Bar i -> i\<close>. By
  the spec's row the constructor is used via pattern match.
\<close>

definition example_matched_in_case :: elmModule where
  "example_matched_in_case =
     \<lparr>exposingList = ExposingList [ExposedName ''foo''],
      declarations =
        [\<lparr>decl_name = ''Foo'', kind = CustomTypeDecl, constructors = [''Bar''],
          occurrences = [TypeRef ''Int'']\<rparr>,
         \<lparr>decl_name = ''foo'', kind = ValueDecl, constructors = [],
          occurrences = [Identifier ''x'', PatternConstructor ''Bar'', Identifier ''i'']\<rparr>]\<rparr>"

section \<open>Auxiliary definitions and sample inputs\<close>

text \<open>
  A run of \<^verbatim>\<open>updateDiagnostics\<close> of one kind over the entries of a result map, as the
  \<^verbatim>\<open>forEach\<close> loops of the provider make it.
\<close>

definition updateAll :: "DiagnosticKind \<Rightarrow> (string \<times> Diagnostic list) list \<Rightarrow> state \<Rightarrow> state" where
  "updateAll k jobs s = foldl (\<lambda>s' (u, ds). updateDiagnostics u k ds s') s jobs"

definition diagnosticA :: Diagnostic where
  "diagnosticA =
     \<lparr>code = ''unused_top_level'', message = ''Unused top level definition bar'', severity = Warning,
      range' = ((7, 0), (7, 3)), tags = [Unnecessary], source = ''Elm''\<rparr>"

definition diagnosticB :: Diagnostic where
  "diagnosticB =
     \<lparr>code = ''boolean_case_expr'', message = ''Use an if expression instead of a case expression.'',
      severity = Warning, range' = ((3, 4), (6, 18)), tags = [], source = ''Elm''\<rparr>"

text \<open>The provider right after construction with no workspace: nothing tracked, nothing pending.\<close>

definition initialState :: state where
  "initialState =
     \<lparr>currentDiagnostics = [],
      clientSettings = \<lparr>elmAnalyseTrigger = change, disableElmLSDiagnostics = False\<rparr>,
      analyseTrigger = change, elmAnalyseDiagnostics = True,
      now = 0, nextWrapper = 0, timers = [], sent = [], console = [], analyseRequests = []\<rparr>"

text \<open>
  Two files tracked: \<^verbatim>\<open>A.elm\<close> holds a build diagnostic and a lint diagnostic, \<^verbatim>\<open>B.elm\<close> a
  lint diagnostic only.
\<close>

definition trackedState :: state where
  "trackedState =
     initialState\<lparr>currentDiagnostics :=
       [(''file:///A.elm'',
         \<lparr>fd_uri = ''file:///A.elm'', slots = (\<lambda>_. [])(ElmMake := [diagnosticA], ElmLS := [diagnosticA])\<rparr>),
        (''file:///B.elm'',
         \<lparr>fd_uri = ''file:///B.elm'', slots = (\<lambda>_. [])(ElmLS := [diagnosticB])\<rparr>)]\<rparr>"

text \<open>
  One workspace whose forest has \<^verbatim>\<open>A.elm\<close>, not writeable, and \<^verbatim>\<open>C.elm\<close>, writeable. The
  rule engine finds \<^const>\<open>diagnosticB\<close> in every tree; the workspace matcher knows no
  workspace for \<^verbatim>\<open>B.elm\<close> and fails otherwise for \<^verbatim>\<open>D.elm\<close>; the build reports
  \<^const>\<open>diagnosticA\<close> for \<^verbatim>\<open>A.elm\<close> whatever file it is asked to build.
\<close>

definition containerA :: "nat ITreeContainer" where
  "containerA = \<lparr>tc_uri = ''file:///A.elm'', writeable = False, tree = 1\<rparr>"

definition containerB :: "nat ITreeContainer" where
  "containerB = \<lparr>tc_uri = ''file:///B.elm'', writeable = True, tree = 2\<rparr>"

definition containerC :: "nat ITreeContainer" where
  "containerC = \<lparr>tc_uri = ''file:///C.elm'', writeable = True, tree = 3\<rparr>"

definition containerD :: "nat ITreeContainer" where
  "containerD = \<lparr>tc_uri = ''file:///D.elm'', writeable = True, tree = 4\<rparr>"

definition sampleEnv :: "(nat, nat) collaborators" where
  "sampleEnv =
     \<lparr>workspaces = [0],
      treeMap = (\<lambda>w. [containerA, containerC]),
      elmLsCreateDiagnostics = (\<lambda>t u w. [diagnosticB]),
      typeInferenceCreateDiagnostics = (\<lambda>tc w. []),
      elmMakeCreateDiagnostics = (\<lambda>u. [(''file:///A.elm'', [diagnosticA])]),
      getElmWorkspaceFor =
        (\<lambda>u. if u = ''file:///B.elm'' then Inl (NoWorkspaceContainsError ''No workspace contains B.elm'')
             else if u = ''file:///D.elm'' then Inl (OtherError ''unexpected'')
             else Inr 0),
      parseUri = (\<lambda>u. u)\<rparr>"

definition otherEnv :: "(nat, nat) collaborators" where
  "otherEnv = sampleEnv\<lparr>elmLsCreateDiagnostics := (\<lambda>t u w. [diagnosticA, diagnosticB])\<rparr>"

definition lintDisabled :: IClientSettings where
  "lintDisabled = \<lparr>elmAnalyseTrigger = change, disableElmLSDiagnostics = True\<rparr>"

definition lintEnabled :: IClientSettings where
  "lintEnabled = \<lparr>elmAnalyseTrigger = change, disableElmLSDiagnostics = False\<rparr>"

definition documentA :: TextDocument where
  "documentA = \<lparr>doc_uri = ''file:///A.elm'', getText = ''module A exposing (..)''\<rparr>"

definition documentB :: TextDocument where
  "documentB = \<lparr>doc_uri = ''file:///B.elm'', getText = ''module B exposing (..)''\<rparr>"

text \<open>
  A run of the handlers from construction: the tree of \<^verbatim>\<open>A.elm\<close> changes and the file
  gets its lint diagnostics; the rule engine is then switched off in the configuration,
  which empties the lint slot and keeps the record.
\<close>

definition afterTreeChange :: state where
  "afterTreeChange =
     (case onTreeChange sampleEnv containerA initialState of Inr s \<Rightarrow> s | Inl e \<Rightarrow> initialState)"

definition switchedOff :: state where
  "switchedOff = onDidChangeConfiguration sampleEnv lintDisabled afterTreeChange"

text \<open>
  Two requests for \<^verbatim>\<open>A.elm\<close> ten milliseconds apart, each changing the merged list, and
  the clock then run past both debounce windows.
\<close>

definition twoRequests :: state where
  "twoRequests =
     advanceTo 200
       (updateDiagnostics ''file:///A.elm'' ElmLS [diagnosticA, diagnosticB]
         (advanceTo 10
           (updateDiagnostics ''file:///A.elm'' ElmLS [diagnosticA] initialState)))"

section \<open>Properties of the aggregator\<close>

subsection \<open>What one update does\<close>

lemma slotOf_updateDiagnostics:
  "slotOf (updateDiagnostics u k ds s) u' k' = (if u' = u \<and> k' = k then ds else slotOf s u' k')"
  by (auto simp add: slotOf_def updateDiagnostics_def sendDiagnosticsDebounced_def callDebounced_def Let_def
      AList.update_conv' update_def getForKind_def newFileDiagnostics_def split: option.splits)

lemma keys_updateDiagnostics:
  "fst ` set (currentDiagnostics (updateDiagnostics u k ds s)) =
     (if map_of (currentDiagnostics s) u = None \<and> ds = [] then fst ` set (currentDiagnostics s)
      else insert u (fst ` set (currentDiagnostics s)))"
  by (auto simp add: updateDiagnostics_def sendDiagnosticsDebounced_def callDebounced_def Let_def
      AList.dom_update update_def split: option.splits prod.splits)

lemma distinct_updateDiagnostics:
  "distinct (map fst (currentDiagnostics s)) \<Longrightarrow>
   distinct (map fst (currentDiagnostics (updateDiagnostics u k ds s)))"
  by (auto simp add: updateDiagnostics_def sendDiagnosticsDebounced_def callDebounced_def Let_def
      AList.distinct_update update_def split: option.splits prod.splits)

lemma frame_updateDiagnostics:
  "clientSettings (updateDiagnostics u k ds s) = clientSettings s"
  "analyseTrigger (updateDiagnostics u k ds s) = analyseTrigger s"
  "elmAnalyseDiagnostics (updateDiagnostics u k ds s) = elmAnalyseDiagnostics s"
  "analyseRequests (updateDiagnostics u k ds s) = analyseRequests s"
  "console (updateDiagnostics u k ds s) = console s"
  "sent (updateDiagnostics u k ds s) = sent s"
  "now (updateDiagnostics u k ds s) = now s"
  by (auto simp add: updateDiagnostics_def sendDiagnosticsDebounced_def callDebounced_def Let_def
      update_def split: option.splits prod.splits)

text \<open>
  A wrapper made by \<^const>\<open>sendDiagnosticsDebounced\<close> is new, so its call finds no timeout
  of its own to clear: every pending timeout stays and one more is set.
\<close>

lemma sendDiagnosticsDebounced_keeps_timers:
  assumes "\<forall>(w, due, arg) \<in> set (timers s). w < nextWrapper s"
  shows "timers (sendDiagnosticsDebounced u s) = timers s @ [(nextWrapper s, now s + 50, u)]"
proof -
  have "filter (\<lambda>(w', due, arg). w' \<noteq> nextWrapper s) (timers s) = timers s"
    using assms by (intro filter_True) auto
  then show ?thesis
    by (simp add: sendDiagnosticsDebounced_def callDebounced_def Let_def)
qed

text \<open>
  Two calls of one and the same wrapper do coalesce: the second call clears the timeout
  of the first, and the wrapper is left with one timeout, for the later argument.
\<close>

lemma callDebounced_coalesces:
  "filter (\<lambda>(w', due, arg). w' = w) (timers (callDebounced w u' (callDebounced w u s)))
     = [(w, now s + 50, u')]"
proof -
  have "filter (\<lambda>(w', due, arg). w' = w) (filter (\<lambda>(w', due, arg). w' \<noteq> w) ts) = []" for ts :: "(nat \<times> nat \<times> string) list"
    by (induction ts) auto
  then show ?thesis
    by (simp add: callDebounced_def)
qed

subsection \<open>Runs of updates\<close>

lemma updateAll_simps:
  "updateAll k [] s = s"
  "updateAll k ((u, ds) # jobs) s = updateAll k jobs (updateDiagnostics u k ds s)"
  by (simp_all add: updateAll_def)

lemma updateAll_append: "updateAll k (xs @ ys) s = updateAll k ys (updateAll k xs s)"
  by (simp add: updateAll_def)

lemma slotOf_updateAll:
  "slotOf (updateAll k jobs s) u' k' =
     (if k' = k then (case map_of (rev jobs) u' of Some ds \<Rightarrow> ds | None \<Rightarrow> slotOf s u' k')
      else slotOf s u' k')"
proof (induction jobs arbitrary: s)
  case Nil
  then show ?case by (simp add: updateAll_simps)
next
  case (Cons j jobs)
  obtain u ds where j: "j = (u, ds)" by (cases j)
  show ?case
    unfolding j updateAll_simps Cons.IH
    by (auto simp: slotOf_updateDiagnostics map_of_append split: option.splits)
qed

lemma updateAll_preserves:
  assumes "\<And>u ds s. f (updateDiagnostics u k ds s) = f s"
  shows "f (updateAll k jobs s) = f s"
proof (induction jobs arbitrary: s)
  case Nil
  show ?case by (simp add: updateAll_simps)
next
  case (Cons j jobs)
  obtain u ds where j: "j = (u, ds)" by (cases j)
  show ?case unfolding j updateAll_simps Cons.IH by (rule assms)
qed

lemma frame_updateAll:
  "clientSettings (updateAll k jobs s) = clientSettings s"
  "analyseTrigger (updateAll k jobs s) = analyseTrigger s"
  "elmAnalyseDiagnostics (updateAll k jobs s) = elmAnalyseDiagnostics s"
  "analyseRequests (updateAll k jobs s) = analyseRequests s"
  "console (updateAll k jobs s) = console s"
  "sent (updateAll k jobs s) = sent s"
  by (rule updateAll_preserves, rule frame_updateDiagnostics)+

lemma slotOf_clientSettings [simp]: "slotOf (s\<lparr>clientSettings := c\<rparr>) u k = slotOf s u k"
  by (simp add: slotOf_def)

lemma slotOf_console [simp]: "slotOf (s\<lparr>console := c\<rparr>) u k = slotOf s u k"
  by (simp add: slotOf_def)

lemma slotOf_analyseRequests [simp]: "slotOf (s\<lparr>analyseRequests := c\<rparr>) u k = slotOf s u k"
  by (simp add: slotOf_def)

subsection \<open>The configuration handler as runs of updates\<close>

lemma enabled_jobs_aux:
  "foldl (\<lambda>s'' treeContainer.
             if writeable treeContainer then
               updateDiagnostics (tc_uri treeContainer) ElmLS (f treeContainer) s''
             else s'') s tcs
   = updateAll ElmLS (map (\<lambda>tc. (tc_uri tc, f tc)) (filter writeable tcs)) s"
  by (induction tcs arbitrary: s) (simp_all add: updateAll_simps)

lemma enabled_jobs:
  "foldl (\<lambda>s' workspace.
                    foldl (\<lambda>s'' treeContainer.
                             if writeable treeContainer then
                               updateDiagnostics (tc_uri treeContainer) ElmLS
                                 (elmLsCreateDiagnostics env (tree treeContainer) (tc_uri treeContainer) workspace) s''
                             else s'')
                          s' (treeMap env workspace))
                 s ws
   = updateAll ElmLS (concat (map (\<lambda>workspace.
                    map (\<lambda>treeContainer.
                           (tc_uri treeContainer,
                            elmLsCreateDiagnostics env (tree treeContainer) (tc_uri treeContainer) workspace))
                        (filter writeable (treeMap env workspace))) ws)) s"
  by (induction ws arbitrary: s) (simp_all add: updateAll_simps enabled_jobs_aux updateAll_append)

lemma onDidChangeConfiguration_enabled:
  "\<not> disableElmLSDiagnostics settings \<Longrightarrow>
   onDidChangeConfiguration env settings s = updateAll ElmLS (lintJobs env) (s\<lparr>clientSettings := settings\<rparr>)"
  by (simp add: onDidChangeConfiguration_def lintJobs_def enabled_jobs)

lemma clear_aux:
  "foldl (\<lambda>s' u. updateDiagnostics u k [] s') s us = updateAll k (map (\<lambda>u. (u, [])) us) s"
  by (induction us arbitrary: s) (simp_all add: updateAll_simps)

lemma onDidChangeConfiguration_disabled:
  "disableElmLSDiagnostics settings \<Longrightarrow>
   onDidChangeConfiguration env settings s =
     updateAll ElmLS (map (\<lambda>u. (u, [])) (map fst (currentDiagnostics s))) (s\<lparr>clientSettings := settings\<rparr>)"
  by (simp add: onDidChangeConfiguration_def clear_aux)

lemma map_of_clear:
  "map_of (rev (map ((\<lambda>u. (u, [])) \<circ> f) xs)) u = (if u \<in> f ` set xs then Some [] else None)"
  by (induction xs) (auto simp: map_of_append map_add_def split: option.splits)

subsection \<open>The document handler as a run of updates\<close>

lemma getDiagnostics_alt:
  "getDiagnostics env document isSaveOrOpen trigger s =
     (let s0 = s\<lparr>console := console s @ [requestedInfo isSaveOrOpen]\<rparr>;
          u = parseUri env (doc_uri document);
          s1 = (if isSaveOrOpen then updateAll ElmMake (resetDiagnostics (elmMakeCreateDiagnostics env u) ElmMake s0) s0 else s0)
      in if elmAnalyseDiagnostics s1 \<and> trigger \<noteq> never \<and> slotOf s1 u ElmMake = []
         then s1\<lparr>analyseRequests := analyseRequests s1 @ [(u, getText document)]\<rparr>
         else s1)"
  by (simp add: getDiagnostics_def updateAll_def Let_def slotOf_def [symmetric])

lemma getDiagnostics_gate:
  "(slotOf (getDiagnostics env d b trigger s) (parseUri env (doc_uri d)) ElmMake \<noteq> [] \<longrightarrow>
      analyseRequests (getDiagnostics env d b trigger s) = analyseRequests s)
   \<and> (analyseRequests (getDiagnostics env d b trigger s) \<noteq> analyseRequests s \<longrightarrow>
      slotOf (getDiagnostics env d b trigger s) (parseUri env (doc_uri d)) ElmMake = []
      \<and> analyseRequests (getDiagnostics env d b trigger s) = analyseRequests s @ [(parseUri env (doc_uri d), getText d)])
   \<and> (\<forall>f. slotOf (getDiagnostics env d b trigger s) f ElmAnalyse = slotOf s f ElmAnalyse)"
  by (simp add: getDiagnostics_alt Let_def slotOf_updateAll frame_updateAll)

subsection \<open>The bulk reset\<close>

lemma resetDiagnostics_fold:
  "map_of (foldl (\<lambda>dl (diagnosticsUri, fileDiagnostics).
              if map_of dl diagnosticsUri = None \<and> length (getForKind fileDiagnostics k) > 0
              then AList.update diagnosticsUri [] dl
              else dl) dl cur) u =
   (if map_of dl u = None \<and> (\<exists>fd. (u, fd) \<in> set cur \<and> getForKind fd k \<noteq> []) then Some [] else map_of dl u)"
proof (induction cur arbitrary: dl)
  case Nil
  then show ?case by simp
next
  case (Cons p cur)
  obtain u0 fd0 where p: "p = (u0, fd0)" by (cases p)
  show ?case
    unfolding p foldl_Cons prod.case Cons.IH
    by (auto simp add: AList.update_conv')
qed

lemma distinct_resetDiagnostics:
  "distinct (map fst diagnosticList) \<Longrightarrow> distinct (map fst (resetDiagnostics diagnosticList k s))"
proof -
  have "distinct (map fst dl) \<Longrightarrow>
        distinct (map fst (foldl (\<lambda>dl (diagnosticsUri, fileDiagnostics).
              if map_of dl diagnosticsUri = None \<and> length (getForKind fileDiagnostics k) > 0
              then AList.update diagnosticsUri [] dl
              else dl) dl cur))" for dl cur
    by (induction cur arbitrary: dl) (auto simp: AList.distinct_update)
  then show "distinct (map fst diagnosticList) \<Longrightarrow> ?thesis"
    by (simp add: resetDiagnostics_def)
qed

section \<open>The claims about the aggregator\<close>

text \<open>
  Claim C1 says that two or more republish requests for one file inside the debounce
  window give exactly one transport emission, carrying the merged state read when the
  window elapses. The emission does read the state when its timeout runs, but the
  requests do not coalesce: the wrapper is built inside \<^verbatim>\<open>updateDiagnostics\<close>, once per
  request, so no request ever clears the timeout of an earlier one. In
  \<^const>\<open>twoRequests\<close> the file \<^verbatim>\<open>A.elm\<close> is updated at 0 ms and again at 10 ms; both
  timeouts run, at 50 ms and at 60 ms, and the transport receives two emissions, each with
  the two diagnostics the file holds by then.
\<close>

theorem debounce_two_emissions:
  "timers (updateDiagnostics ''file:///A.elm'' ElmLS [diagnosticA, diagnosticB]
            (advanceTo 10 (updateDiagnostics ''file:///A.elm'' ElmLS [diagnosticA] initialState)))
     = [(0, 50, ''file:///A.elm''), (1, 60, ''file:///A.elm'')]
   \<and> sent twoRequests =
       [(''file:///A.elm'', [diagnosticA, diagnosticB]), (''file:///A.elm'', [diagnosticA, diagnosticB])]"
  by (simp add: twoRequests_def initialState_def advanceTo_def updateDiagnostics_def
      sendDiagnosticsDebounced_def callDebounced_def sendDiagnostics_def Let_def
      update_def newFileDiagnostics_def get_def diagnosticKey_def diagnosticA_def diagnosticB_def)

text \<open>
  Claim C3: for a file the aggregator does not track, an update with an empty list is a
  no-op: the state, and with it the map of records, the pending timeouts and the
  emissions, is the one before; and an update of an untracked file leaves a record behind
  exactly when its list is not empty.
\<close>

theorem updateDiagnostics_untracked_empty:
  assumes "map_of (currentDiagnostics s) u = None"
  shows "updateDiagnostics u k [] s = s
       \<and> (map_of (currentDiagnostics (updateDiagnostics u k ds s)) u \<noteq> None \<longleftrightarrow> ds \<noteq> [])"
  using assms
  by (simp add: updateDiagnostics_def sendDiagnosticsDebounced_def callDebounced_def Let_def
      AList.update_conv')

theorem updateDiagnostics_untracked_empty_witness:
  "map_of (currentDiagnostics trackedState) ''file:///C.elm'' = None
   \<and> updateDiagnostics ''file:///C.elm'' ElmLS [] trackedState = trackedState
   \<and> map_of (currentDiagnostics (updateDiagnostics ''file:///C.elm'' ElmLS [diagnosticB] trackedState))
        ''file:///C.elm'' \<noteq> None"
proof -
  have untracked: "map_of (currentDiagnostics trackedState) ''file:///C.elm'' = None"
    by (simp add: trackedState_def)
  show ?thesis
    using untracked updateDiagnostics_untracked_empty [OF untracked, of ElmLS "[diagnosticB]"]
    by simp
qed

text \<open>
  Claim C4: deleting a file removes its record from the map, leaves every other record,
  and sends the empty list for the file to the transport at once (no timeout is set),
  whether the file was tracked or not.
\<close>

theorem deleteDiagnostics_publishes_empty:
  "map_of (currentDiagnostics (deleteDiagnostics u s)) = (map_of (currentDiagnostics s))(u := None)
   \<and> u \<notin> fst ` set (currentDiagnostics (deleteDiagnostics u s))
   \<and> sent (deleteDiagnostics u s) = sent s @ [(u, [])]
   \<and> timers (deleteDiagnostics u s) = timers s"
  by (simp add: deleteDiagnostics_def AList.delete_conv' AList.delete_notin_dom)

theorem deleteDiagnostics_publishes_empty_witness:
  "map_of (currentDiagnostics initialState) ''file:///C.elm'' = None
   \<and> sent (deleteDiagnostics ''file:///C.elm'' initialState) = [(''file:///C.elm'', [])]
   \<and> map_of (currentDiagnostics (deleteDiagnostics ''file:///A.elm'' trackedState)) ''file:///A.elm'' = None
   \<and> sent (deleteDiagnostics ''file:///A.elm'' trackedState) = [(''file:///A.elm'', [])]"
  using deleteDiagnostics_publishes_empty [of "''file:///C.elm''" initialState]
        deleteDiagnostics_publishes_empty [of "''file:///A.elm''" trackedState]
  by (simp add: initialState_def trackedState_def)

text \<open>
  Claim C5: \<^verbatim>\<open>resetDiagnostics\<close> gives the result map an entry with the empty list for
  exactly the files that have no entry in it and whose record holds a non-empty list under
  the kind; every entry the result map had stays as it was, and no other file gets one.
\<close>

theorem resetDiagnostics_entries:
  "map_of (resetDiagnostics newResults k s) u =
     (if map_of newResults u = None
         \<and> (\<exists>fd. (u, fd) \<in> set (currentDiagnostics s) \<and> getForKind fd k \<noteq> [])
      then Some [] else map_of newResults u)"
  unfolding resetDiagnostics_def by (rule resetDiagnostics_fold)

theorem resetDiagnostics_entries_witness:
  "map_of (resetDiagnostics [(''file:///C.elm'', [diagnosticB])] ElmMake trackedState) ''file:///A.elm'' = Some []
   \<and> map_of (resetDiagnostics [(''file:///C.elm'', [diagnosticB])] ElmMake trackedState) ''file:///B.elm'' = None
   \<and> map_of (resetDiagnostics [(''file:///C.elm'', [diagnosticB])] ElmMake trackedState) ''file:///C.elm''
        = Some [diagnosticB]"
  using resetDiagnostics_entries [of "[(''file:///C.elm'', [diagnosticB])]" ElmMake trackedState "''file:///A.elm''"]
        resetDiagnostics_entries [of "[(''file:///C.elm'', [diagnosticB])]" ElmMake trackedState "''file:///B.elm''"]
        resetDiagnostics_entries [of "[(''file:///C.elm'', [diagnosticB])]" ElmMake trackedState "''file:///C.elm''"]
  by (simp add: trackedState_def initialState_def getForKind_def)

text \<open>
  Claim C6 says that a configuration change with the rule engine enabled recomputes the
  lint diagnostics of every tracked file. The handler does not go through the tracked
  files: it goes through the forests of the workspaces and skips every tree container
  that is not writeable. In \<^const>\<open>switchedOff\<close> the file \<^verbatim>\<open>A.elm\<close> is tracked, its lint
  slot emptied by the change that disabled the rule engine, and its tree is in the forest
  of \<^const>\<open>sampleEnv\<close>, not writeable. The change that enables the rule engine again
  leaves the slot empty, although the rule engine has a diagnostic for that tree.
\<close>

theorem tracked_file_not_recomputed:
  "''file:///A.elm'' \<in> fst ` set (currentDiagnostics switchedOff)
   \<and> containerA \<in> set (treeMap sampleEnv 0)
   \<and> tc_uri containerA = ''file:///A.elm''
   \<and> \<not> disableElmLSDiagnostics lintEnabled
   \<and> slotOf (onDidChangeConfiguration sampleEnv lintEnabled switchedOff) ''file:///A.elm'' ElmLS = []
   \<and> elmLsCreateDiagnostics sampleEnv (tree containerA) ''file:///A.elm'' 0 = [diagnosticB]"
proof -
  have enabled: "\<not> disableElmLSDiagnostics lintEnabled"
    by (simp add: lintEnabled_def)
  have disabled: "disableElmLSDiagnostics lintDisabled"
    by (simp add: lintDisabled_def)
  have jobs: "lintJobs sampleEnv = [(''file:///C.elm'', [diagnosticB])]"
    by (simp add: lintJobs_def sampleEnv_def containerA_def containerC_def)
  have "map fst (currentDiagnostics switchedOff) = [''file:///A.elm'']"
    by (simp add: switchedOff_def afterTreeChange_def onTreeChange_def onDidChangeConfiguration_def
        lintDisabled_def sampleEnv_def containerA_def initialState_def updateDiagnostics_def
        sendDiagnosticsDebounced_def callDebounced_def update_def newFileDiagnostics_def Let_def get_def)
  then have "set (map fst (currentDiagnostics switchedOff)) = {''file:///A.elm''}"
    by simp
  then have tracked: "''file:///A.elm'' \<in> fst ` set (currentDiagnostics switchedOff)"
    by simp
  have "map fst (currentDiagnostics afterTreeChange) = [''file:///A.elm'']"
    by (simp add: afterTreeChange_def onTreeChange_def sampleEnv_def containerA_def initialState_def
        updateDiagnostics_def sendDiagnosticsDebounced_def callDebounced_def update_def
        newFileDiagnostics_def Let_def get_def)
  then have "set (map fst (currentDiagnostics afterTreeChange)) = {''file:///A.elm''}"
    by simp
  then have "''file:///A.elm'' \<in> fst ` set (currentDiagnostics afterTreeChange)"
    by simp
  then have "slotOf switchedOff ''file:///A.elm'' ElmLS = []"
    by (simp add: switchedOff_def onDidChangeConfiguration_disabled [OF disabled] slotOf_updateAll
        map_of_clear)
  then have kept: "slotOf (onDidChangeConfiguration sampleEnv lintEnabled switchedOff) ''file:///A.elm'' ElmLS = []"
    by (simp add: onDidChangeConfiguration_enabled [OF enabled] slotOf_updateAll jobs)
  have computed: "elmLsCreateDiagnostics sampleEnv (tree containerA) ''file:///A.elm'' 0 = [diagnosticB]"
    by (simp add: sampleEnv_def)
  have inForest: "containerA \<in> set (treeMap sampleEnv 0)" "tc_uri containerA = ''file:///A.elm''"
    by (simp_all add: sampleEnv_def containerA_def)
  show ?thesis
    using enabled kept computed tracked inForest by simp
qed

text \<open>
  Claim C6 as amended. When the change disables the rule engine, the lint slot of every
  tracked file becomes the empty list and the producers are not consulted (the outcome is
  the same whatever they are). When the rule engine is enabled, the lint slot of a file
  becomes what the rule engine computes for the last writeable tree container of that URI
  in the workspaces' forests, and the lint slot of a file without such a container,
  tracked or not, stays as it was.
\<close>

theorem onDidChangeConfiguration_lint:
  "(disableElmLSDiagnostics settings \<longrightarrow>
      (\<forall>u \<in> fst ` set (currentDiagnostics s). slotOf (onDidChangeConfiguration env settings s) u ElmLS = [])
      \<and> onDidChangeConfiguration env settings s = onDidChangeConfiguration env' settings s)
   \<and> (\<not> disableElmLSDiagnostics settings \<longrightarrow>
      (\<forall>u. slotOf (onDidChangeConfiguration env settings s) u ElmLS =
         (case map_of (rev (lintJobs env)) u of Some ds \<Rightarrow> ds | None \<Rightarrow> slotOf s u ElmLS)))"
proof (cases "disableElmLSDiagnostics settings")
  case True
  then show ?thesis
    by (auto simp: onDidChangeConfiguration_disabled slotOf_updateAll map_of_clear)
next
  case False
  then show ?thesis
    by (simp add: onDidChangeConfiguration_enabled slotOf_updateAll split: option.splits)
qed

theorem onDidChangeConfiguration_lint_witness:
  "disableElmLSDiagnostics lintDisabled
   \<and> ''file:///A.elm'' \<in> fst ` set (currentDiagnostics trackedState)
   \<and> slotOf (onDidChangeConfiguration sampleEnv lintDisabled trackedState) ''file:///A.elm'' ElmLS = []
   \<and> onDidChangeConfiguration sampleEnv lintDisabled trackedState
       = onDidChangeConfiguration otherEnv lintDisabled trackedState
   \<and> \<not> disableElmLSDiagnostics lintEnabled
   \<and> slotOf (onDidChangeConfiguration sampleEnv lintEnabled trackedState) ''file:///C.elm'' ElmLS
       = [diagnosticB]
   \<and> slotOf (onDidChangeConfiguration sampleEnv lintEnabled trackedState) ''file:///B.elm'' ElmLS
       = slotOf trackedState ''file:///B.elm'' ElmLS"
proof -
  have disabled: "disableElmLSDiagnostics lintDisabled"
    by (simp add: lintDisabled_def)
  have enabled: "\<not> disableElmLSDiagnostics lintEnabled"
    by (simp add: lintEnabled_def)
  have tracked: "''file:///A.elm'' \<in> fst ` set (currentDiagnostics trackedState)"
    by (simp add: trackedState_def)
  have jobs: "lintJobs sampleEnv = [(''file:///C.elm'', [diagnosticB])]"
    by (simp add: lintJobs_def sampleEnv_def containerA_def containerC_def)
  note off = onDidChangeConfiguration_lint [of lintDisabled trackedState sampleEnv otherEnv,
      THEN conjunct1, THEN mp, OF disabled]
  note on = onDidChangeConfiguration_lint [of lintEnabled trackedState sampleEnv sampleEnv,
      THEN conjunct2, THEN mp, OF enabled]
  from off tracked
  have cleared: "slotOf (onDidChangeConfiguration sampleEnv lintDisabled trackedState) ''file:///A.elm'' ElmLS = []"
    by blast
  from off
  have same: "onDidChangeConfiguration sampleEnv lintDisabled trackedState
                = onDidChangeConfiguration otherEnv lintDisabled trackedState"
    by (rule conjunct2)
  from on [THEN spec, of "''file:///C.elm''"]
  have computed: "slotOf (onDidChangeConfiguration sampleEnv lintEnabled trackedState) ''file:///C.elm'' ElmLS
                    = [diagnosticB]"
    by (simp add: jobs)
  from on [THEN spec, of "''file:///B.elm''"]
  have kept: "slotOf (onDidChangeConfiguration sampleEnv lintEnabled trackedState) ''file:///B.elm'' ElmLS
                = slotOf trackedState ''file:///B.elm'' ElmLS"
    by (simp add: jobs)
  show ?thesis
    using disabled tracked cleared same enabled computed kept by blast
qed

text \<open>
  Claim C7: when the workspace matcher fails with the no-workspace-contains error on a
  tree change, the handler logs the error's message and returns; the state is the one
  before but for that log entry, so no record of this or of any other file changes and
  nothing is scheduled or sent. Any other error of the matcher leaves the handler as it
  came.
\<close>

theorem onTreeChange_lookup_failure:
  "(getElmWorkspaceFor env (tc_uri treeContainer) = Inl (NoWorkspaceContainsError msg) \<longrightarrow>
      onTreeChange env treeContainer s = Inr (s\<lparr>console := console s @ [msg]\<rparr>))
   \<and> (getElmWorkspaceFor env (tc_uri treeContainer) = Inl (OtherError msg) \<longrightarrow>
      onTreeChange env treeContainer s = Inl (OtherError msg))"
  by (simp add: onTreeChange_def)

theorem onTreeChange_lookup_failure_witness:
  "getElmWorkspaceFor sampleEnv (tc_uri containerB) = Inl (NoWorkspaceContainsError ''No workspace contains B.elm'')
   \<and> onTreeChange sampleEnv containerB trackedState
       = Inr (trackedState\<lparr>console := console trackedState @ [''No workspace contains B.elm'']\<rparr>)
   \<and> getElmWorkspaceFor sampleEnv (tc_uri containerD) = Inl (OtherError ''unexpected'')
   \<and> onTreeChange sampleEnv containerD trackedState = Inl (OtherError ''unexpected'')"
proof -
  have b: "getElmWorkspaceFor sampleEnv (tc_uri containerB)
             = Inl (NoWorkspaceContainsError ''No workspace contains B.elm'')"
    by (simp add: sampleEnv_def containerB_def)
  have d: "getElmWorkspaceFor sampleEnv (tc_uri containerD) = Inl (OtherError ''unexpected'')"
    by (simp add: sampleEnv_def containerD_def)
  show ?thesis
    using b d
      onTreeChange_lookup_failure [of sampleEnv containerB "''No workspace contains B.elm''" trackedState]
      onTreeChange_lookup_failure [of sampleEnv containerD "''unexpected''" trackedState]
    by simp
qed

text \<open>
  Claim C10: on an open, save or change event the external linter is asked to analyse
  the file only if the build list stored for the file, after the build of an open or
  save has been merged, is empty or the file has no record; when that list is not empty
  no request is made. No handler of these events touches the external linter's slot of
  any file.
\<close>

theorem onEvent_elmAnalyse_gate:
  "(slotOf (onEvent env ev s) (parseUri env (doc_uri (document_of ev))) ElmMake \<noteq> [] \<longrightarrow>
      analyseRequests (onEvent env ev s) = analyseRequests s)
   \<and> (analyseRequests (onEvent env ev s) \<noteq> analyseRequests s \<longrightarrow>
      slotOf (onEvent env ev s) (parseUri env (doc_uri (document_of ev))) ElmMake = []
      \<and> analyseRequests (onEvent env ev s) =
          analyseRequests s @ [(parseUri env (doc_uri (document_of ev)), getText (document_of ev))])
   \<and> (\<forall>f. slotOf (onEvent env ev s) f ElmAnalyse = slotOf s f ElmAnalyse)"
proof (cases ev)
  case (Open d)
  then show ?thesis using getDiagnostics_gate [of env d True "analyseTrigger s" s] by simp
next
  case (Save d)
  then show ?thesis using getDiagnostics_gate [of env d True "analyseTrigger s" s] by simp
next
  case (Change d)
  show ?thesis
  proof (cases "analyseTrigger s = change")
    case True
    with Change show ?thesis using getDiagnostics_gate [of env d False change s] by simp
  next
    case False
    with Change show ?thesis by simp
  qed
qed

theorem onEvent_elmAnalyse_gate_witness:
  "slotOf (onEvent sampleEnv (Save documentA) initialState) ''file:///A.elm'' ElmMake \<noteq> []
   \<and> analyseRequests (onEvent sampleEnv (Save documentA) initialState) = []
   \<and> analyseRequests (onEvent sampleEnv (Change documentB) initialState) \<noteq> []
   \<and> slotOf (onEvent sampleEnv (Change documentB) initialState) ''file:///B.elm'' ElmMake = []
   \<and> analyseRequests (onEvent sampleEnv (Change documentB) initialState)
       = [(''file:///B.elm'', ''module B exposing (..)'')]"
proof -
  have built: "slotOf (onEvent sampleEnv (Save documentA) initialState) ''file:///A.elm'' ElmMake \<noteq> []"
    by (simp add: getDiagnostics_alt Let_def slotOf_updateAll sampleEnv_def documentA_def
        resetDiagnostics_def initialState_def)
  have asked: "analyseRequests (onEvent sampleEnv (Change documentB) initialState) \<noteq> []"
    by (simp add: getDiagnostics_alt Let_def sampleEnv_def documentB_def initialState_def slotOf_def)
  have uriA: "parseUri sampleEnv (doc_uri (document_of (Save documentA))) = ''file:///A.elm''"
    by (simp add: sampleEnv_def documentA_def)
  have uriB: "parseUri sampleEnv (doc_uri (document_of (Change documentB))) = ''file:///B.elm''"
    by (simp add: sampleEnv_def documentB_def)
  have textB: "getText (document_of (Change documentB)) = ''module B exposing (..)''"
    by (simp add: documentB_def)
  have none: "analyseRequests initialState = []"
    by (simp add: initialState_def)
  show ?thesis
    using built asked
      onEvent_elmAnalyse_gate [of sampleEnv "Save documentA" initialState]
      onEvent_elmAnalyse_gate [of sampleEnv "Change documentB" initialState]
    unfolding uriA uriB textB none
    by simp
qed

section \<open>The claims about the rule engine\<close>

subsection \<open>The models against the tests\<close>

text \<open>
  The model of \<^verbatim>\<open>unused_value_constructor\<close> gives what each of the six tests of the rule
  expects, and the model of \<^verbatim>\<open>unused_top_level\<close> what the test \<^verbatim>\<open>only used in self\<close>
  expects and what the example of the spec's section 8 says.
\<close>

lemma unused_value_constructor_tests:
  "unused_value_constructor test_unused_but_exposed = []"
  "unused_value_constructor test_used_and_not_exposed = []"
  "unused_value_constructor test_used_value_constructor = []"
  "unused_value_constructor test_unused_value_constructor_not_exposed = [''Thing'', ''Other'']"
  "unused_value_constructor test_exposed_value_constructor = []"
  by (simp_all add: unused_value_constructor_def exposedWithAll_def usedNames_def
      allOccurrences_def test_unused_but_exposed_def test_used_and_not_exposed_def
      test_used_value_constructor_def test_unused_value_constructor_not_exposed_def
      test_exposed_value_constructor_def)

text \<open>A match in a branch of a case expression is a use: nothing is reported.\<close>

lemma unused_value_constructor_matched_in_case:
  "unused_value_constructor example_matched_in_case = []"
  by (simp add: unused_value_constructor_def exposedWithAll_def usedNames_def
      allOccurrences_def example_matched_in_case_def)

lemma unused_top_level_test:
  "unused_top_level test_only_used_in_self = [''bar'']"
  by (simp add: unused_top_level_def computeUsed_def roots_def portRoots_def declared_def
      exposed_def references_def test_only_used_in_self_def)

lemma unused_top_level_example:
  "unused_top_level example_used_by_exposed = [''baz'']"
  by (simp add: unused_top_level_def computeUsed_def roots_def portRoots_def declared_def
      exposed_def references_def example_used_by_exposed_def)

subsection \<open>Reachability\<close>

text \<open>
  A name that is not on the work list, not visited, and referenced by no declaration of
  another name is never reached.
\<close>

lemma reachable_avoids:
  "\<forall>x \<in> set (declared m). x \<noteq> d \<longrightarrow> d \<notin> set (references m x) \<Longrightarrow>
   d \<notin> set todo \<Longrightarrow> d \<notin> set visited \<Longrightarrow> d \<notin> set (reachable m todo visited)"
proof (induction m todo visited rule: reachable.induct)
  case (1 m visited)
  then show ?case by simp
next
  case (2 m x todo visited)
  note no_ref = "2.prems"(1)
  show ?case
  proof (cases "x \<in> set visited \<or> x \<notin> set (declared m)")
    case True
    then have eq: "reachable m (x # todo) visited = reachable m todo visited"
      by simp
    from "2.prems" have "d \<notin> set todo" by simp
    then have "d \<notin> set (reachable m todo visited)"
      using "2.IH"(1) [OF True no_ref] "2.prems"(3) by simp
    with eq show ?thesis by simp
  next
    case False
    then have eq: "reachable m (x # todo) visited = reachable m (references m x @ todo) (x # visited)"
      by simp
    from "2.prems" have "x \<noteq> d" by auto
    moreover from False have "x \<in> set (declared m)" by simp
    ultimately have "d \<notin> set (references m x)" using no_ref by simp
    with "2.prems" \<open>x \<noteq> d\<close> have "d \<notin> set (references m x @ todo)" "d \<notin> set (x # visited)"
      by auto
    then have "d \<notin> set (reachable m (references m x @ todo) (x # visited))"
      using "2.IH"(2) [OF False no_ref] by simp
    with eq show ?thesis by simp
  qed
qed

lemma references_only_from:
  "d \<in> set (references m x) \<Longrightarrow>
   \<exists>e \<in> set (declarations m). decl_name e = x \<and> d \<in> set (map occ_name (occurrences e)) \<and> d \<noteq> x"
  by (auto simp: references_def)

lemma portRoots_only_from:
  "d \<in> set (portRoots m) \<Longrightarrow>
   \<exists>e \<in> set (declarations m). decl_name e \<noteq> d \<and> d \<in> set (map occ_name (occurrences e))"
proof -
  assume "d \<in> set (portRoots m)"
  then obtain e oc where e: "e \<in> set (declarations m)" and oc: "oc \<in> set (occurrences e)"
      and d: "d = occ_name oc" and ne: "occ_name oc \<noteq> decl_name e"
    by (auto simp: portRoots_def)
  from oc d have "d \<in> set (map occ_name (occurrences e))" by simp
  moreover from d ne have "decl_name e \<noteq> d" by simp
  ultimately show ?thesis using e by blast
qed

text \<open>What the resolver reaches is declared, and every exposed declaration is reached.\<close>

lemma reachable_mono: "set visited \<subseteq> set (reachable m todo visited)"
  by (induction m todo visited rule: reachable.induct) auto

lemma reachable_todo:
  "x \<in> set todo \<Longrightarrow> x \<in> set (declared m) \<Longrightarrow> x \<in> set (reachable m todo visited)"
proof (induction m todo visited rule: reachable.induct)
  case (1 m visited)
  then show ?case by simp
next
  case (2 m y todo visited)
  show ?case
  proof (cases "y \<in> set visited \<or> y \<notin> set (declared m)")
    case True
    then have eq: "reachable m (y # todo) visited = reachable m todo visited"
      by simp
    show ?thesis
    proof (cases "x = y")
      case same: True
      with True "2.prems" have "x \<in> set visited" by simp
      with reachable_mono [of visited m todo] eq show ?thesis by auto
    next
      case False
      with "2.prems" have "x \<in> set todo" by simp
      with "2.IH"(1) [OF True] "2.prems"(2) eq show ?thesis by simp
    qed
  next
    case False
    then have eq: "reachable m (y # todo) visited = reachable m (references m y @ todo) (y # visited)"
      by simp
    show ?thesis
    proof (cases "x = y")
      case True
      with reachable_mono [of "y # visited" m "references m y @ todo"] eq show ?thesis by auto
    next
      case diff: False
      with "2.prems" have "x \<in> set (references m y @ todo)" by simp
      with "2.IH"(2) [OF False] "2.prems"(2) eq show ?thesis by simp
    qed
  qed
qed

lemma exposed_is_used:
  "n \<in> set (declared m) \<Longrightarrow> exposed (exposingList m) n \<Longrightarrow> n \<in> set (computeUsed m)"
  unfolding computeUsed_def by (rule reachable_todo) (simp_all add: roots_def)

subsection \<open>The claims\<close>

text \<open>What the evaluator takes as used, and when a type counts as exposed with its constructors.\<close>

lemma usedNames_iff:
  "c \<in> set (usedNames m) \<longleftrightarrow>
     (\<exists>d \<in> set (declarations m).
        Identifier c \<in> set (occurrences d) \<or> PatternConstructor c \<in> set (occurrences d))"
proof
  assume "c \<in> set (usedNames m)"
  then obtain oc d where d: "d \<in> set (declarations m)" and oc: "oc \<in> set (occurrences d)"
      and use: "isUse oc" and name: "occ_name oc = c"
    by (auto simp: usedNames_def allOccurrences_def)
  from use name have "oc = Identifier c \<or> oc = PatternConstructor c"
    by (cases oc) auto
  with d oc show "\<exists>d \<in> set (declarations m).
      Identifier c \<in> set (occurrences d) \<or> PatternConstructor c \<in> set (occurrences d)"
    by auto
next
  assume "\<exists>d \<in> set (declarations m).
      Identifier c \<in> set (occurrences d) \<or> PatternConstructor c \<in> set (occurrences d)"
  then obtain d oc where d: "d \<in> set (declarations m)" and oc: "oc \<in> set (occurrences d)"
      and form: "oc = Identifier c \<or> oc = PatternConstructor c"
    by auto
  from form have "isUse oc" "occ_name oc = c" by auto
  with d oc show "c \<in> set (usedNames m)"
    by (force simp: usedNames_def allOccurrences_def)
qed

lemma exposedWithAll_iff:
  "\<not> exposedWithAll e t \<longleftrightarrow> (\<exists>items. e = ExposingList items \<and> ExposedTypeAll t \<notin> set items)"
  by (cases e) (simp_all add: exposedWithAll_def)

text \<open>
  The row of the spec as it is worded holds of every constructor that is matched in no
  argument of a function declaration.
\<close>

lemma unused_value_constructor_as_worded:
  assumes "\<forall>d \<in> set (declarations m). ArgumentPatternConstructor c \<notin> set (occurrences d)"
  shows "c \<in> set (unused_value_constructor m) \<longleftrightarrow>
           (\<exists>t \<in> set (declarations m).
              kind t = CustomTypeDecl \<and> c \<in> set (constructors t)
              \<and> \<not> exposedWithAll (exposingList m) (decl_name t))
           \<and> \<not> referencedByName m c \<and> \<not> usedViaPatternMatch m c"
  using assms
  by (auto simp: unused_value_constructor_def usedNames_iff referencedByName_def
      usedViaPatternMatch_def allOccurrences_def)

text \<open>
  Claim C2 says that the rule engine reports a value constructor exactly when it is never
  referenced by name, never used via pattern match, and its type is not exposed with
  \<^verbatim>\<open>(..)\<close>, so that a constructor matched in a pattern, as a function argument pattern for
  one, is not reported. The repository's test \<^verbatim>\<open>unused and not exposed\<close> says otherwise: in
  \<^verbatim>\<open>foo (Bar i) = i\<close> the constructor \<^verbatim>\<open>Bar\<close> is matched in the pattern of a function
  argument, and the test expects the diagnostic for it.
\<close>

theorem pattern_matched_constructor_reported:
  "ArgumentPatternConstructor ''Bar'' \<in> set (allOccurrences test_unused_and_not_exposed)
   \<and> unused_value_constructor test_unused_and_not_exposed = expected_unused_and_not_exposed
   \<and> ''Bar'' \<in> set (unused_value_constructor test_unused_and_not_exposed)"
  by (simp add: unused_value_constructor_def exposedWithAll_def
      usedNames_def allOccurrences_def test_unused_and_not_exposed_def
      expected_unused_and_not_exposed_def)

text \<open>
  Claim C2 as amended: a value constructor is reported exactly when it is a constructor
  of a custom type of the module that is not exposed with \<^verbatim>\<open>(..)\<close>, no expression
  references it by name, and no pattern other than an argument of a function declaration
  matches it. A match in the argument of a function declaration does not count as a use;
  a match in any other pattern does.
\<close>

theorem unused_value_constructor_iff:
  "c \<in> set (unused_value_constructor m) \<longleftrightarrow>
     (\<exists>t \<in> set (declarations m). \<exists>items.
        kind t = CustomTypeDecl \<and> c \<in> set (constructors t)
        \<and> exposingList m = ExposingList items \<and> ExposedTypeAll (decl_name t) \<notin> set items)
     \<and> (\<forall>d \<in> set (declarations m).
          Identifier c \<notin> set (occurrences d) \<and> PatternConstructor c \<notin> set (occurrences d))"
proof -
  have "c \<in> set (unused_value_constructor m) \<longleftrightarrow>
          (\<exists>t \<in> set (declarations m).
             kind t = CustomTypeDecl \<and> c \<in> set (constructors t)
             \<and> \<not> exposedWithAll (exposingList m) (decl_name t))
          \<and> c \<notin> set (usedNames m)"
    by (auto simp: unused_value_constructor_def)
  also have "\<dots> \<longleftrightarrow>
          (\<exists>t \<in> set (declarations m). \<exists>items.
             kind t = CustomTypeDecl \<and> c \<in> set (constructors t)
             \<and> exposingList m = ExposingList items \<and> ExposedTypeAll (decl_name t) \<notin> set items)
          \<and> (\<forall>d \<in> set (declarations m).
               Identifier c \<notin> set (occurrences d) \<and> PatternConstructor c \<notin> set (occurrences d))"
    unfolding usedNames_iff exposedWithAll_iff by blast
  finally show ?thesis .
qed

theorem unused_value_constructor_iff_witness:
  "ArgumentPatternConstructor ''Bar'' \<in> set (allOccurrences test_unused_and_not_exposed)
   \<and> ''Bar'' \<in> set (unused_value_constructor test_unused_and_not_exposed)
   \<and> PatternConstructor ''Bar'' \<in> set (allOccurrences example_matched_in_case)
   \<and> ''Bar'' \<notin> set (unused_value_constructor example_matched_in_case)
   \<and> Identifier ''Bar'' \<in> set (allOccurrences test_used_and_not_exposed)
   \<and> ''Bar'' \<notin> set (unused_value_constructor test_used_and_not_exposed)
   \<and> exposingList test_unused_but_exposed = ExposingList [ExposedTypeAll ''Foo'']
   \<and> ''Bar'' \<notin> set (unused_value_constructor test_unused_but_exposed)"
proof -
  have argument: "ArgumentPatternConstructor ''Bar'' \<in> set (allOccurrences test_unused_and_not_exposed)"
    by (simp add: allOccurrences_def test_unused_and_not_exposed_def)
  have owner: "\<exists>t \<in> set (declarations test_unused_and_not_exposed). \<exists>items.
        kind t = CustomTypeDecl \<and> ''Bar'' \<in> set (constructors t)
        \<and> exposingList test_unused_and_not_exposed = ExposingList items
        \<and> ExposedTypeAll (decl_name t) \<notin> set items"
    by (simp add: test_unused_and_not_exposed_def)
  have unused: "\<forall>d \<in> set (declarations test_unused_and_not_exposed).
        Identifier ''Bar'' \<notin> set (occurrences d) \<and> PatternConstructor ''Bar'' \<notin> set (occurrences d)"
    by (simp add: test_unused_and_not_exposed_def)
  have reported: "''Bar'' \<in> set (unused_value_constructor test_unused_and_not_exposed)"
    using owner unused unused_value_constructor_iff [of "''Bar''" test_unused_and_not_exposed]
    by blast
  have branch: "PatternConstructor ''Bar'' \<in> set (allOccurrences example_matched_in_case)"
    by (simp add: allOccurrences_def example_matched_in_case_def)
  have "\<exists>d \<in> set (declarations example_matched_in_case). PatternConstructor ''Bar'' \<in> set (occurrences d)"
    by (simp add: example_matched_in_case_def)
  then have matched: "''Bar'' \<notin> set (unused_value_constructor example_matched_in_case)"
    using unused_value_constructor_iff [of "''Bar''" example_matched_in_case] by blast
  have expression: "Identifier ''Bar'' \<in> set (allOccurrences test_used_and_not_exposed)"
    by (simp add: allOccurrences_def test_used_and_not_exposed_def)
  have "\<exists>d \<in> set (declarations test_used_and_not_exposed). Identifier ''Bar'' \<in> set (occurrences d)"
    by (simp add: test_used_and_not_exposed_def)
  then have referenced: "''Bar'' \<notin> set (unused_value_constructor test_used_and_not_exposed)"
    using unused_value_constructor_iff [of "''Bar''" test_used_and_not_exposed] by blast
  have "\<not> (\<exists>t \<in> set (declarations test_unused_but_exposed). \<exists>items.
        kind t = CustomTypeDecl \<and> ''Bar'' \<in> set (constructors t)
        \<and> exposingList test_unused_but_exposed = ExposingList items
        \<and> ExposedTypeAll (decl_name t) \<notin> set items)"
    by (simp add: test_unused_but_exposed_def)
  then have exposed: "''Bar'' \<notin> set (unused_value_constructor test_unused_but_exposed)"
    using unused_value_constructor_iff [of "''Bar''" test_unused_but_exposed] by blast
  have all: "exposingList test_unused_but_exposed = ExposingList [ExposedTypeAll ''Foo'']"
    by (simp add: test_unused_but_exposed_def)
  show ?thesis
    using argument reported branch matched expression referenced all exposed by simp
qed

text \<open>
  Claim C8: a top-level declaration of the module that is not exposed and whose name
  occurs in no declaration of another name is reported \<^verbatim>\<open>unused_top_level\<close>, whatever
  occurs inside its own defining span: a reference of the declaration to itself does not
  make it reachable.
\<close>

theorem unused_top_level_self_reference:
  assumes decl: "d \<in> set (declarations m)"
      and not_exposed: "\<not> exposed (exposingList m) (decl_name d)"
      and only_self: "\<forall>e \<in> set (declarations m).
                        decl_name e \<noteq> decl_name d \<longrightarrow> decl_name d \<notin> set (map occ_name (occurrences e))"
  shows "decl_name d \<in> set (unused_top_level m)"
proof -
  have "decl_name d \<notin> set (portRoots m)"
  proof
    assume "decl_name d \<in> set (portRoots m)"
    then obtain e where "e \<in> set (declarations m)" "decl_name e \<noteq> decl_name d"
        "decl_name d \<in> set (map occ_name (occurrences e))"
      using portRoots_only_from by blast
    with only_self show False by blast
  qed
  with not_exposed have not_root: "decl_name d \<notin> set (roots m)"
    by (simp add: roots_def)
  have no_ref: "\<forall>x \<in> set (declared m). x \<noteq> decl_name d \<longrightarrow> decl_name d \<notin> set (references m x)"
  proof (intro ballI impI notI)
    fix x assume "x \<noteq> decl_name d" "decl_name d \<in> set (references m x)"
    then obtain e where "e \<in> set (declarations m)" "decl_name e = x"
        "decl_name d \<in> set (map occ_name (occurrences e))"
      using references_only_from by blast
    with only_self \<open>x \<noteq> decl_name d\<close> show False by blast
  qed
  have "decl_name d \<notin> set (reachable m (roots m) [])"
    using no_ref not_root by (rule reachable_avoids) simp
  with decl show ?thesis
    by (simp add: unused_top_level_def declared_def computeUsed_def)
qed

theorem unused_top_level_self_reference_witness:
  "\<lparr>decl_name = ''bar'', kind = ValueDecl, constructors = [],
     occurrences = [Identifier ''bar'', Identifier ''foo'']\<rparr> \<in> set (declarations test_only_used_in_self)
   \<and> \<not> exposed (exposingList test_only_used_in_self) ''bar''
   \<and> ''bar'' \<in> set (map occ_name [Identifier ''bar'', Identifier ''foo''])
   \<and> ''bar'' \<in> set (unused_top_level test_only_used_in_self)"
proof -
  have decl: "\<lparr>decl_name = ''bar'', kind = ValueDecl, constructors = [],
      occurrences = [Identifier ''bar'', Identifier ''foo'']\<rparr> \<in> set (declarations test_only_used_in_self)"
    by (simp add: test_only_used_in_self_def)
  have not_exposed: "\<not> exposed (exposingList test_only_used_in_self) ''bar''"
    by (simp add: test_only_used_in_self_def exposed_def)
  have only_self: "\<forall>e \<in> set (declarations test_only_used_in_self).
      decl_name e \<noteq> ''bar'' \<longrightarrow> ''bar'' \<notin> set (map occ_name (occurrences e))"
    by (simp add: test_only_used_in_self_def)
  show ?thesis
    using decl not_exposed
      unused_top_level_self_reference
        [of "\<lparr>decl_name = ''bar'', kind = ValueDecl, constructors = [],
               occurrences = [Identifier ''bar'', Identifier ''foo'']\<rparr>" test_only_used_in_self]
      only_self
    by simp
qed


end
